theory Spec2Isabelle
  imports Main "HOL-Library.Multiset" "HOL-Library.Log_Nat"
begin

section \<open>JavaScript values and objects\<close>

text \<open>
  The task manager keeps its records as plain JavaScript objects and builds them with
  object spread, so a record is modelled as a finite map from property names to values.
  Only the primitive values that occur in task records, filters and action payloads are
  modelled; numbers are the integers (ids, clock readings and counters are all integral).
\<close>

datatype jsval = JUndefined | JNull | JBool bool | JNum int | JStr string

type_synonym obj = "string \<rightharpoonup> jsval"

type_synonym task = obj

text \<open>Property read \<open>o.k\<close>: a missing property reads as \<open>undefined\<close>.\<close>

definition getProp :: "obj \<Rightarrow> string \<Rightarrow> jsval" where
  "getProp ob k = (case ob k of None \<Rightarrow> JUndefined | Some v \<Rightarrow> v)"

text \<open>JavaScript truthiness, as used by \<open>!a.dueDate\<close> and \<open>if (searchTerm)\<close>.\<close>

fun truthy :: "jsval \<Rightarrow> bool" where
  "truthy JUndefined = False"
| "truthy JNull = False"
| "truthy (JBool b) = b"
| "truthy (JNum n) = (n \<noteq> 0)"
| "truthy (JStr s) = (s \<noteq> [])"

text \<open>Errors raised by the code: a \<open>TypeError\<close> from a method call on a value that has no
  such method, and the exception \<open>localStorage.setItem\<close> throws when the write is refused.
  \<open>PayloadShape\<close> marks an action whose payload does not have the shape that the
  dispatching helpers of \<open>TaskProvider\<close> build for its type; such actions lie outside the
  typed model of payloads below.\<close>

datatype error = TypeError | StorageError | PayloadShape

section \<open>The store and the reducer (TaskContext)\<close>

record state =
  tasks :: "task list"
  filters :: obj
  sortBy :: jsval

definition initialState :: state where
  "initialState =
     \<lparr> tasks = [],
       filters = [''status'' \<mapsto> JStr ''all'', ''priority'' \<mapsto> JStr ''all'',
                  ''searchTerm'' \<mapsto> JStr ''''],
       sortBy = JStr ''date'' \<rparr>"

definition ACTION_TYPES :: "string list" where
  "ACTION_TYPES =
     [''SET_TASKS'', ''ADD_TASK'', ''UPDATE_TASK'', ''DELETE_TASK'', ''TOGGLE_TASK'',
      ''SET_FILTER'', ''SET_SORT'', ''CLEAR_COMPLETED'']"

text \<open>
  Payload shapes, as built by the helpers \<open>addTask\<close>, \<open>updateTask\<close>, \<open>deleteTask\<close>,
  \<open>toggleTask\<close>, \<open>setFilter\<close>, \<open>setSort\<close> and \<open>clearCompleted\<close>: a bare value (an id, a
  sort criterion, or \<open>undefined\<close> when the action has no payload), an array of records, a
  draft object, \<open>{id, updates}\<close> and \<open>{filterType, value}\<close>.
\<close>

datatype payload =
    PVal jsval
  | PTasks "task list"
  | PObj obj
  | PUpdate jsval obj
  | PFilter string jsval

record action =
  atype :: string
  payload :: payload

text \<open>
  What the reducer reads from the outside world: \<open>Date.now()\<close>, the value of
  \<open>Math.floor(Math.random() * 1000)\<close> (an integer from 0 to 999) and the string
  \<open>new Date().toISOString()\<close>, each at the moment the action is reduced.
\<close>

record env =
  now :: int
  rand :: int
  iso :: string

definition taskReducer :: "env \<Rightarrow> state \<Rightarrow> action \<Rightarrow> error + state" where
  "taskReducer e st a =
    (if atype a = ''SET_TASKS'' then
       (case payload a of
          PTasks ts \<Rightarrow> Inr (st\<lparr>tasks := ts\<rparr>)
        | _ \<Rightarrow> Inl PayloadShape)
     else if atype a = ''ADD_TASK'' then
       (case payload a of
          PObj draft \<Rightarrow>
            (let newId = now e + rand e
             in Inr (st\<lparr>tasks := tasks st @
                        [draft(''id'' \<mapsto> JNum newId, ''status'' \<mapsto> JStr ''pending'')]\<rparr>))
        | _ \<Rightarrow> Inl PayloadShape)
     else if atype a = ''UPDATE_TASK'' then
       (case payload a of
          PUpdate i updates \<Rightarrow>
            Inr (st\<lparr>tasks := map (\<lambda>t. if getProp t ''id'' = i then t ++ updates else t)
                                  (tasks st)\<rparr>)
        | _ \<Rightarrow> Inl PayloadShape)
     else if atype a = ''DELETE_TASK'' then
       (case payload a of
          PVal i \<Rightarrow> Inr (st\<lparr>tasks := filter (\<lambda>t. getProp t ''id'' \<noteq> i) (tasks st)\<rparr>)
        | _ \<Rightarrow> Inl PayloadShape)
     else if atype a = ''TOGGLE_TASK'' then
       (case payload a of
          PVal i \<Rightarrow>
            Inr (st\<lparr>tasks :=
                   map (\<lambda>t. if getProp t ''id'' = i
                             then t(''status'' \<mapsto>
                                      (if getProp t ''status'' = JStr ''completed''
                                       then JStr ''pending'' else JStr ''completed''),
                                    ''completedAt'' \<mapsto>
                                      (if getProp t ''status'' = JStr ''completed''
                                       then JNull else JStr (iso e)))
                             else t)
                       (tasks st)\<rparr>)
        | _ \<Rightarrow> Inl PayloadShape)
     else if atype a = ''SET_FILTER'' then
       (case payload a of
          PFilter filterType v \<Rightarrow> Inr (st\<lparr>filters := (filters st)(filterType \<mapsto> v)\<rparr>)
        | _ \<Rightarrow> Inl PayloadShape)
     else if atype a = ''SET_SORT'' then
       (case payload a of
          PVal v \<Rightarrow> Inr (st\<lparr>sortBy := v\<rparr>)
        | _ \<Rightarrow> Inl PayloadShape)
     else if atype a = ''CLEAR_COMPLETED'' then
       Inr (st\<lparr>tasks := filter (\<lambda>t. getProp t ''status'' \<noteq> JStr ''completed'') (tasks st)\<rparr>)
     else Inr st)"

section \<open>Dispatching helpers and sample data (TaskContext)\<close>

text \<open>
  \<open>returns r P\<close>: the computation \<open>r\<close> raised nothing and its result satisfies \<open>P\<close>.
\<close>

definition returns :: "error + 'a \<Rightarrow> ('a \<Rightarrow> bool) \<Rightarrow> bool" where
  "returns r P = (case r of Inl _ \<Rightarrow> False | Inr x \<Rightarrow> P x)"


definition ctx_updateTask :: "env \<Rightarrow> state \<Rightarrow> jsval \<Rightarrow> obj \<Rightarrow> error + state" where
  "ctx_updateTask e st i updates =
     taskReducer e st \<lparr>atype = ''UPDATE_TASK'', payload = PUpdate i updates\<rparr>"

definition ctx_deleteTask :: "env \<Rightarrow> state \<Rightarrow> jsval \<Rightarrow> error + state" where
  "ctx_deleteTask e st i = taskReducer e st \<lparr>atype = ''DELETE_TASK'', payload = PVal i\<rparr>"

definition ctx_toggleTask :: "env \<Rightarrow> state \<Rightarrow> jsval \<Rightarrow> error + state" where
  "ctx_toggleTask e st i = taskReducer e st \<lparr>atype = ''TOGGLE_TASK'', payload = PVal i\<rparr>"


definition ctx_setSort :: "env \<Rightarrow> state \<Rightarrow> jsval \<Rightarrow> error + state" where
  "ctx_setSort e st v = taskReducer e st \<lparr>atype = ''SET_SORT'', payload = PVal v\<rparr>"

definition ctx_clearCompleted :: "env \<Rightarrow> state \<Rightarrow> error + state" where
  "ctx_clearCompleted e st =
     taskReducer e st \<lparr>atype = ''CLEAR_COMPLETED'', payload = PVal JUndefined\<rparr>"

text \<open>Successive dispatches: each action is reduced on the store the previous one left.\<close>

fun dispatchAll :: "state \<Rightarrow> (env \<times> action) list \<Rightarrow> error + state" where
  "dispatchAll st [] = Inr st"
| "dispatchAll st ((e, a) # rest) =
     (case taskReducer e st a of Inl err \<Rightarrow> Inl err | Inr st' \<Rightarrow> dispatchAll st' rest)"

definition getSampleTasks :: "task list" where
  "getSampleTasks =
     [ [''id'' \<mapsto> JNum 1,
        ''title'' \<mapsto> JStr ''Fix authentication bug in login flow'',
        ''description'' \<mapsto> JStr ''Users are experiencing issues logging in with OAuth providers. Need to debug the callback handling.'',
        ''priority'' \<mapsto> JStr ''high'',
        ''status'' \<mapsto> JStr ''pending'',
        ''dueDate'' \<mapsto> JStr ''2024-12-25'',
        ''createdAt'' \<mapsto> JStr ''2024-12-20T00:00:00.000Z''],
       [''id'' \<mapsto> JNum 2,
        ''title'' \<mapsto> JStr ''Update API documentation'',
        ''description'' \<mapsto> JStr ''Add examples for the new endpoints and update the authentication section.'',
        ''priority'' \<mapsto> JStr ''medium'',
        ''status'' \<mapsto> JStr ''pending'',
        ''dueDate'' \<mapsto> JStr ''2024-12-28'',
        ''createdAt'' \<mapsto> JStr ''2024-12-21T00:00:00.000Z''],
       [''id'' \<mapsto> JNum 3,
        ''title'' \<mapsto> JStr ''Refactor user service tests'',
        ''description'' \<mapsto> JStr ''Clean up test code and add missing edge cases for better coverage.'',
        ''priority'' \<mapsto> JStr ''low'',
        ''status'' \<mapsto> JStr ''pending'',
        ''dueDate'' \<mapsto> JStr ''2025-01-05'',
        ''createdAt'' \<mapsto> JStr ''2024-12-22T00:00:00.000Z''],
       [''id'' \<mapsto> JNum 4,
        ''title'' \<mapsto> JStr ''Implement user profile page'',
        ''description'' \<mapsto> JStr ''Create responsive profile page with edit functionality and avatar upload.'',
        ''priority'' \<mapsto> JStr ''high'',
        ''status'' \<mapsto> JStr ''completed'',
        ''dueDate'' \<mapsto> JStr ''2024-12-20'',
        ''completedAt'' \<mapsto> JStr ''2024-12-20T00:00:00.000Z'',
        ''createdAt'' \<mapsto> JStr ''2024-12-15T00:00:00.000Z''] ]"

section \<open>Persistence (localStorage)\<close>

text \<open>
  The storage slots hold JSON text. The text of an array of records is modelled by the
  records that \<open>JSON.parse\<close> reads back from it: \<open>JSON.stringify\<close> leaves out every
  property whose value is \<open>undefined\<close> and keeps the others. \<open>refusing\<close> says that the
  storage refuses writes (quota exceeded, storage disabled), in which case \<open>setItem\<close>
  throws.
\<close>

type_synonym json = "task list"

definition JSON_stringify :: "task list \<Rightarrow> json" where
  "JSON_stringify ts =
     map (\<lambda>t k. case t k of Some JUndefined \<Rightarrow> None | v \<Rightarrow> v) ts"

definition JSON_parse :: "json \<Rightarrow> task list" where
  "JSON_parse j = j"

record storage =
  items :: "string \<rightharpoonup> json"
  refusing :: bool

definition getItem :: "storage \<Rightarrow> string \<Rightarrow> json option" where
  "getItem ls k = items ls k"

definition setItem :: "storage \<Rightarrow> string \<Rightarrow> json \<Rightarrow> error + storage" where
  "setItem ls k v =
     (if refusing ls then Inl StorageError else Inr (ls\<lparr>items := (items ls)(k \<mapsto> v)\<rparr>))"

subsection \<open>The effects of TaskProvider\<close>

text \<open>
  The mount effect reads the slot and dispatches SET_TASKS with what it holds, or with the
  sample records when the slot is empty. The save effect runs whenever the task list has
  changed and writes it, but only when the list is not empty.
\<close>

definition loadEffect :: "env \<Rightarrow> storage \<Rightarrow> state \<Rightarrow> error + state" where
  "loadEffect e ls st =
     (case getItem ls ''taskmaster-react-tasks'' of
        Some stored \<Rightarrow>
          taskReducer e st \<lparr>atype = ''SET_TASKS'', payload = PTasks (JSON_parse stored)\<rparr>
      | None \<Rightarrow>
          taskReducer e st \<lparr>atype = ''SET_TASKS'', payload = PTasks getSampleTasks\<rparr>)"

definition saveEffect :: "state \<Rightarrow> storage \<Rightarrow> error + storage" where
  "saveEffect st ls =
     (if length (tasks st) > 0
      then setItem ls ''taskmaster-react-tasks'' (JSON_stringify (tasks st))
      else Inr ls)"

section \<open>The vanilla application (session 2)\<close>

text \<open>
  \<open>AppState\<close> is a global object that the CRUD functions mutate in place, and each of them
  then saves to localStorage. A function is modelled as a map from the world before the
  call to its outcome (the value returned, or the exception that escaped) together with
  the world after, so that what was mutated before an exception stays mutated.
\<close>

record AppState = state +
  currentEditingTaskId :: jsval

record world =
  app :: AppState
  localStorage :: storage

definition saveTasks :: "world \<Rightarrow> error + world" where
  "saveTasks w =
     (case setItem (localStorage w) ''taskmaster-tasks'' (JSON_stringify (tasks (app w))) of
        Inl err \<Rightarrow> Inl err
      | Inr ls \<Rightarrow> Inr (w\<lparr>localStorage := ls\<rparr>))"

definition setTasks :: "task list \<Rightarrow> world \<Rightarrow> world" where
  "setTasks ts w = w\<lparr>app := (app w)\<lparr>tasks := ts\<rparr>\<rparr>"

definition createTask :: "env \<Rightarrow> obj \<Rightarrow> world \<Rightarrow> (error + task) \<times> world" where
  "createTask e taskData w =
     (let newTask = ([''id'' \<mapsto> JNum (now e)] ++ taskData)
                      (''status'' \<mapsto> JStr ''pending'', ''createdAt'' \<mapsto> JStr (iso e));
          w1 = setTasks (tasks (app w) @ [newTask]) w
      in case saveTasks w1 of
           Inl err \<Rightarrow> (Inl err, w1)
         | Inr w2 \<Rightarrow> (Inr newTask, w2))"

fun findIndex :: "('a \<Rightarrow> bool) \<Rightarrow> 'a list \<Rightarrow> nat option" where
  "findIndex P [] = None"
| "findIndex P (x # xs) =
     (if P x then Some 0 else (case findIndex P xs of None \<Rightarrow> None | Some n \<Rightarrow> Some (Suc n)))"

text \<open>\<open>updateTask\<close> returns \<open>null\<close> (here \<open>None\<close>) when no record has the id.\<close>

definition updateTask :: "jsval \<Rightarrow> obj \<Rightarrow> world \<Rightarrow> (error + task option) \<times> world" where
  "updateTask taskId updates w =
     (case findIndex (\<lambda>t. getProp t ''id'' = taskId) (tasks (app w)) of
        None \<Rightarrow> (Inr None, w)
      | Some index \<Rightarrow>
          (let ts = tasks (app w);
               w1 = setTasks (ts[index := (ts ! index) ++ updates]) w
           in case saveTasks w1 of
                Inl err \<Rightarrow> (Inl err, w1)
              | Inr w2 \<Rightarrow> (Inr (Some (tasks (app w2) ! index)), w2)))"

definition deleteTask :: "jsval \<Rightarrow> world \<Rightarrow> (error + bool) \<times> world" where
  "deleteTask taskId w =
     (let initialLength = length (tasks (app w));
          w1 = setTasks (filter (\<lambda>t. getProp t ''id'' \<noteq> taskId) (tasks (app w))) w
      in if length (tasks (app w1)) \<noteq> initialLength
         then (case saveTasks w1 of
                 Inl err \<Rightarrow> (Inl err, w1)
               | Inr w2 \<Rightarrow> (Inr True, w2))
         else (Inr False, w1))"

definition toggleTaskCompletion :: "env \<Rightarrow> jsval \<Rightarrow> world \<Rightarrow> (error + unit) \<times> world" where
  "toggleTaskCompletion e taskId w =
     (case find (\<lambda>t. getProp t ''id'' = taskId) (tasks (app w)) of
        None \<Rightarrow> (Inr (), w)
      | Some task \<Rightarrow>
          (case (if getProp task ''status'' = JStr ''completed''
                 then updateTask taskId
                        [''status'' \<mapsto> JStr ''pending'', ''completedAt'' \<mapsto> JNull] w
                 else updateTask taskId
                        [''status'' \<mapsto> JStr ''completed'', ''completedAt'' \<mapsto> JStr (iso e)] w)
           of (Inl err, w') \<Rightarrow> (Inl err, w')
            | (Inr _, w') \<Rightarrow> (Inr (), w')))"

definition clearCompletedTasks :: "world \<Rightarrow> (error + unit) \<times> world" where
  "clearCompletedTasks w =
     (let w1 = setTasks (filter (\<lambda>t. getProp t ''status'' \<noteq> JStr ''completed'')
                           (tasks (app w))) w
      in case saveTasks w1 of
           Inl err \<Rightarrow> (Inl err, w1)
         | Inr w2 \<Rightarrow> (Inr (), w2))"

section \<open>The derived view (getFilteredTasks, sortTasks)\<close>

text \<open>
  What the view builder takes from the JavaScript runtime:
  \<^item> \<open>callOrder\<close>: how the engine's \<open>Array.prototype.sort\<close> hands two elements to the
    comparator (see \<open>arraySort\<close> below);
  \<^item> \<open>timeValue v\<close>: the time value in milliseconds of \<open>new Date(v)\<close>, \<open>None\<close> for an
    invalid date (whose time value is NaN);
  \<^item> \<open>localeCompare s v\<close>: the result of \<open>s.localeCompare(v)\<close>.
\<close>

datatype callOrder = LaterFirst | EarlierFirst

record runtime =
  callOrder :: callOrder
  timeValue :: "jsval \<Rightarrow> int option"
  localeCompare :: "string \<Rightarrow> jsval \<Rightarrow> int"

text \<open>
  \<open>toLowerCase\<close> on the ASCII letters (other characters are left as they are) and
  \<open>String.prototype.includes\<close>.
\<close>

definition toLowerCase :: "string \<Rightarrow> string" where
  "toLowerCase s =
     map (\<lambda>c. if 65 \<le> (of_char c :: nat) \<and> (of_char c :: nat) \<le> 90
               then char_of ((of_char c :: nat) + 32) else c) s"

fun includesStr :: "string \<Rightarrow> string \<Rightarrow> bool" where
  "includesStr [] sub = (sub = [])"
| "includesStr (c # cs) sub = (take (length sub) (c # cs) = sub \<or> includesStr cs sub)"

text \<open>
  The search predicate: a method call on a title or description that is not a string
  raises a \<open>TypeError\<close>; the description is only read when the title does not match.
\<close>

definition matchesSearch :: "string \<Rightarrow> task \<Rightarrow> error + bool" where
  "matchesSearch search t =
     (case getProp t ''title'' of
        JStr title \<Rightarrow>
          if includesStr (toLowerCase title) search then Inr True
          else (case getProp t ''description'' of
                  JStr description \<Rightarrow> Inr (includesStr (toLowerCase description) search)
                | _ \<Rightarrow> Inl TypeError)
      | _ \<Rightarrow> Inl TypeError)"

text \<open>\<open>Array.prototype.filter\<close> with a predicate that may raise.\<close>

fun filterE :: "('a \<Rightarrow> error + bool) \<Rightarrow> 'a list \<Rightarrow> error + 'a list" where
  "filterE P [] = Inr []"
| "filterE P (x # xs) =
     (case P x of
        Inl err \<Rightarrow> Inl err
      | Inr b \<Rightarrow>
          (case filterE P xs of
             Inl err \<Rightarrow> Inl err
           | Inr ys \<Rightarrow> Inr (if b then x # ys else ys)))"

text \<open>
  The three comparators. A comparator returns a number, \<open>None\<close> standing for NaN, or
  raises.
\<close>

type_synonym comparator = "task \<Rightarrow> task \<Rightarrow> error + int option"

definition priorityOrder :: "jsval \<Rightarrow> int option" where
  "priorityOrder p =
     (if p = JStr ''high'' then Some 3
      else if p = JStr ''medium'' then Some 2
      else if p = JStr ''low'' then Some 1
      else None)"

definition byPriority :: comparator where
  "byPriority a b =
     (case (priorityOrder (getProp b ''priority''), priorityOrder (getProp a ''priority'')) of
        (Some pb, Some pa) \<Rightarrow> Inr (Some (pb - pa))
      | _ \<Rightarrow> Inr None)"

definition byTitle :: "runtime \<Rightarrow> comparator" where
  "byTitle rt a b =
     (case getProp a ''title'' of
        JStr title \<Rightarrow> Inr (Some (localeCompare rt title (getProp b ''title'')))
      | _ \<Rightarrow> Inl TypeError)"

definition byDate :: "runtime \<Rightarrow> comparator" where
  "byDate rt a b =
     (if \<not> truthy (getProp a ''dueDate'') then Inr (Some 1)
      else if \<not> truthy (getProp b ''dueDate'') then Inr (Some (- 1))
      else (case (timeValue rt (getProp a ''dueDate''), timeValue rt (getProp b ''dueDate'')) of
              (Some ta, Some tb) \<Rightarrow> Inr (Some (ta - tb))
            | _ \<Rightarrow> Inr None))"

text \<open>
  \<open>Array.prototype.sort\<close> belongs to the engine. ECMAScript fixes its result (sorted and
  stable) only for a consistent comparator and leaves the order to the implementation
  otherwise. It is modelled as an insertion sort: the elements are taken in array order,
  and each is moved back from the end of the already sorted prefix past every element it
  has to precede. The engines differ in how they ask the comparator whether the element
  \<open>x\<close> being placed precedes an element \<open>y\<close> of the prefix: \<open>LaterFirst\<close> calls
  \<open>comparator(x, y)\<close> and moves \<open>x\<close> on a negative answer (as V8 does); \<open>EarlierFirst\<close>
  calls \<open>comparator(y, x)\<close> and moves \<open>x\<close> on a positive answer. For a consistent
  comparator both give the same result.
\<close>

definition precedes :: "callOrder \<Rightarrow> comparator \<Rightarrow> task \<Rightarrow> task \<Rightarrow> error + bool" where
  "precedes ord c x y =
     (case ord of
        LaterFirst \<Rightarrow>
          (case c x y of
             Inl err \<Rightarrow> Inl err
           | Inr r \<Rightarrow> Inr (case r of None \<Rightarrow> False | Some n \<Rightarrow> n < 0))
      | EarlierFirst \<Rightarrow>
          (case c y x of
             Inl err \<Rightarrow> Inl err
           | Inr r \<Rightarrow> Inr (case r of None \<Rightarrow> False | Some n \<Rightarrow> n > 0)))"

text \<open>
  \<open>placeBack ord c x prefix\<close>: the sorted prefix is given last element first, and so is
  the result.
\<close>

fun placeBack :: "callOrder \<Rightarrow> comparator \<Rightarrow> task \<Rightarrow> task list \<Rightarrow> error + task list" where
  "placeBack ord c x [] = Inr [x]"
| "placeBack ord c x (y # before) =
     (case precedes ord c x y of
        Inl err \<Rightarrow> Inl err
      | Inr True \<Rightarrow>
          (case placeBack ord c x before of
             Inl err \<Rightarrow> Inl err
           | Inr placed \<Rightarrow> Inr (y # placed))
      | Inr False \<Rightarrow> Inr (x # y # before))"

fun sortFrom :: "callOrder \<Rightarrow> comparator \<Rightarrow> task list \<Rightarrow> task list \<Rightarrow> error + task list" where
  "sortFrom ord c sortedRev [] = Inr (rev sortedRev)"
| "sortFrom ord c sortedRev (x # rest) =
     (case placeBack ord c x sortedRev of
        Inl err \<Rightarrow> Inl err
      | Inr sortedRev' \<Rightarrow> sortFrom ord c sortedRev' rest)"

definition arraySort :: "callOrder \<Rightarrow> comparator \<Rightarrow> task list \<Rightarrow> error + task list" where
  "arraySort ord c xs = sortFrom ord c [] xs"

definition sortTasks :: "runtime \<Rightarrow> task list \<Rightarrow> jsval \<Rightarrow> error + task list" where
  "sortTasks rt ts criterion =
     (if criterion = JStr ''priority'' then arraySort (callOrder rt) byPriority ts
      else if criterion = JStr ''title'' then arraySort (callOrder rt) (byTitle rt) ts
      else arraySort (callOrder rt) (byDate rt) ts)"

text \<open>
  \<open>getFilteredTasks\<close> is the same code in the React context and in the vanilla
  application (which calls \<open>sortTasks\<close>; the context has the same switch inline): status
  filter, priority filter, search filter, then the sort.
\<close>

definition getFilteredTasks :: "runtime \<Rightarrow> 'a state_scheme \<Rightarrow> error + task list" where
  "getFilteredTasks rt st =
     (let result = tasks st;
          result = (if getProp (filters st) ''status'' \<noteq> JStr ''all''
                    then filter (\<lambda>t. getProp t ''status'' = getProp (filters st) ''status'')
                           result
                    else result);
          result = (if getProp (filters st) ''priority'' \<noteq> JStr ''all''
                    then filter (\<lambda>t. getProp t ''priority'' = getProp (filters st) ''priority'')
                           result
                    else result)
      in case (if truthy (getProp (filters st) ''searchTerm'')
               then (case getProp (filters st) ''searchTerm'' of
                       JStr search \<Rightarrow> filterE (matchesSearch (toLowerCase search)) result
                     | _ \<Rightarrow> Inl TypeError)
               else Inr result)
         of Inl err \<Rightarrow> Inl err
          | Inr result \<Rightarrow> sortTasks rt result (sortBy st))"

section \<open>Statistics (getStats, calculateStats)\<close>

text \<open>
  JavaScript numbers are IEEE 754 double precision values. The counters are integers and
  exact. The completion rate is computed as \<open>Math.round((completed / total) * 100)\<close>: the
  quotient is rounded to a double, the product with 100 is rounded to a double again, and
  \<open>Math.round\<close> takes the nearest integer of that (halves go up). A positive double is
  represented exactly as mantissa times a power of two.
\<close>

datatype double = Dbl (mantissa: int) (exponent: int)

text \<open>\<open>floorLog2 p q\<close> is the integer \<open>k\<close> with \<open>2^k \<le> p/q < 2^(k+1)\<close>, for positive \<open>p\<close>, \<open>q\<close>.\<close>

definition floorLog2 :: "int \<Rightarrow> int \<Rightarrow> int" where
  "floorLog2 p q =
     (let d = bitlen p - bitlen q
      in if q * 2 ^ nat d \<le> p * 2 ^ nat (- d) then d else d - 1)"

text \<open>
  \<open>nearestDouble p q\<close>: the double nearest to the rational \<open>p/q\<close> (\<open>p\<close>, \<open>q\<close> positive), ties
  to the even mantissa, with a mantissa of 53 bits. Overflow and subnormal numbers do not
  arise for quotients of counts and their percentages and are not modelled.
\<close>

definition nearestDouble :: "int \<Rightarrow> int \<Rightarrow> double" where
  "nearestDouble p q =
     (let e = floorLog2 p q - 52;
          num = p * 2 ^ nat (- e);
          den = q * 2 ^ nat e;
          m = num div den;
          r = num mod den
      in Dbl (if 2 * r < den then m
              else if den < 2 * r then m + 1
              else if even m then m else m + 1) e)"

text \<open>Division of two non-negative integers (the divisor positive), and a double times 100.\<close>

definition divide :: "int \<Rightarrow> int \<Rightarrow> double" where
  "divide a b = (if a = 0 then Dbl 0 0 else nearestDouble a b)"

definition times100 :: "double \<Rightarrow> double" where
  "times100 x =
     (if mantissa x = 0 then Dbl 0 0
      else nearestDouble (mantissa x * 100 * 2 ^ nat (exponent x)) (2 ^ nat (- exponent x)))"

definition Math_round :: "double \<Rightarrow> int" where
  "Math_round x =
     (if 0 \<le> exponent x then mantissa x * 2 ^ nat (exponent x)
      else (2 * mantissa x + 2 ^ nat (- exponent x)) div 2 ^ (nat (- exponent x) + 1))"

record stats =
  total :: int
  inProgress :: int
  completed :: int
  completionRate :: int

text \<open>
  The reducer callback of \<open>getStats\<close>; the accumulator starts without a
  \<open>completionRate\<close>, which is assigned after the pass (the field holds 0 until then).
\<close>

definition countTask :: "stats \<Rightarrow> task \<Rightarrow> stats" where
  "countTask acc task =
     (let acc = acc\<lparr>total := total acc + 1\<rparr>
      in if getProp task ''status'' = JStr ''completed''
         then acc\<lparr>completed := completed acc + 1\<rparr>
         else acc\<lparr>inProgress := inProgress acc + 1\<rparr>)"

definition getStats :: "'a state_scheme \<Rightarrow> stats" where
  "getStats st =
     (let stats = foldl countTask
                    \<lparr>total = 0, inProgress = 0, completed = 0, completionRate = 0\<rparr> (tasks st)
      in stats\<lparr>completionRate :=
                 (if total stats > 0
                  then Math_round (times100 (divide (completed stats) (total stats)))
                  else 0)\<rparr>)"

definition calculateStats :: "AppState \<Rightarrow> stats" where
  "calculateStats appState = getStats appState"

text \<open>
  The completion rate as the specification words it: \<open>round(100 * completed / total)\<close>,
  the nearest integer of the exact quotient (halves go up), and 0 when there are no tasks.
\<close>

definition specCompletionRate :: "int \<Rightarrow> int \<Rightarrow> int" where
  "specCompletionRate k n = (if n = 0 then 0 else (200 * k + n) div (2 * n))"

section \<open>The completion invariant\<close>

text \<open>
  \<open>completedAt\<close> is set when the property is present and neither \<open>undefined\<close> nor
  \<open>null\<close>. A record satisfies the invariant when it is completed exactly if
  \<open>completedAt\<close> is set.
\<close>

definition completedAtSet :: "task \<Rightarrow> bool" where
  "completedAtSet t =
     (getProp t ''completedAt'' \<noteq> JUndefined \<and> getProp t ''completedAt'' \<noteq> JNull)"

definition taskInv :: "task \<Rightarrow> bool" where
  "taskInv t = ((getProp t ''status'' = JStr ''completed'') = completedAtSet t)"

definition storeInv :: "state \<Rightarrow> bool" where
  "storeInv st = list_all taskInv (tasks st)"

text \<open>
  Two side conditions on actions. \<open>shaped\<close>: the payload has the shape that the helper
  for the action's type builds. \<open>completionSafe\<close>: the payload does not itself carry
  completion data, that is, a replacement list satisfies the invariant, a draft has no
  \<open>completedAt\<close> set, and a patch has neither a \<open>status\<close> nor a \<open>completedAt\<close> property.
\<close>

definition shaped :: "action \<Rightarrow> bool" where
  "shaped a =
    (if atype a = ''SET_TASKS'' then (case payload a of PTasks _ \<Rightarrow> True | _ \<Rightarrow> False)
     else if atype a = ''ADD_TASK'' then (case payload a of PObj _ \<Rightarrow> True | _ \<Rightarrow> False)
     else if atype a = ''UPDATE_TASK''
       then (case payload a of PUpdate _ _ \<Rightarrow> True | _ \<Rightarrow> False)
     else if atype a = ''DELETE_TASK'' \<or> atype a = ''TOGGLE_TASK'' \<or> atype a = ''SET_SORT''
       then (case payload a of PVal _ \<Rightarrow> True | _ \<Rightarrow> False)
     else if atype a = ''SET_FILTER''
       then (case payload a of PFilter _ _ \<Rightarrow> True | _ \<Rightarrow> False)
     else True)"

definition completionSafe :: "action \<Rightarrow> bool" where
  "completionSafe a =
    (case payload a of
       PTasks ts \<Rightarrow> list_all taskInv ts
     | PObj draft \<Rightarrow> \<not> completedAtSet draft
     | PUpdate i updates \<Rightarrow> updates ''status'' = None \<and> updates ''completedAt'' = None
     | _ \<Rightarrow> True)"


text \<open>
  Records with a due date (a truthy \<open>dueDate\<close>), the time value of a record's due date,
  due dates that are valid dates, and the strict order "has a due date, and the other has
  none or a later one".
\<close>

definition dated :: "task \<Rightarrow> bool" where
  "dated t = truthy (getProp t ''dueDate'')"

definition dueTime :: "runtime \<Rightarrow> task \<Rightarrow> int" where
  "dueTime rt t = (case timeValue rt (getProp t ''dueDate'') of Some ms \<Rightarrow> ms | None \<Rightarrow> 0)"

definition validDate :: "runtime \<Rightarrow> task \<Rightarrow> bool" where
  "validDate rt t = (dated t \<longrightarrow> timeValue rt (getProp t ''dueDate'') \<noteq> None)"

definition dueBefore :: "runtime \<Rightarrow> task \<Rightarrow> task \<Rightarrow> bool" where
  "dueBefore rt x y = (dated x \<and> (\<not> dated y \<or> dueTime rt x < dueTime rt y))"

section \<open>Basic facts about property reads and the dispatching helpers\<close>

lemma getProp_upd [simp]:
  "getProp (t(k \<mapsto> v)) k' = (if k' = k then v else getProp t k')"
  by (simp add: getProp_def)

lemma getProp_empty [simp]: "getProp Map.empty k = JUndefined"
  by (simp add: getProp_def)

lemma getProp_add_None: "u k = None \<Longrightarrow> getProp (t ++ u) k = getProp t k"
  by (simp add: getProp_def map_add_def)

lemma returns_Inr [simp]: "returns (Inr x) P = P x"
  by (simp add: returns_def)

lemma returns_Inl [simp]: "returns (Inl err) P = False"
  by (simp add: returns_def)


lemma ctx_updateTask_eq:
  "ctx_updateTask e st i updates =
     Inr (st\<lparr>tasks := map (\<lambda>t. if getProp t ''id'' = i then t ++ updates else t) (tasks st)\<rparr>)"
  by (simp add: ctx_updateTask_def taskReducer_def)

lemma ctx_toggleTask_eq:
  "ctx_toggleTask e st i =
     Inr (st\<lparr>tasks :=
            map (\<lambda>t. if getProp t ''id'' = i
                      then t(''status'' \<mapsto>
                               (if getProp t ''status'' = JStr ''completed''
                                then JStr ''pending'' else JStr ''completed''),
                             ''completedAt'' \<mapsto>
                               (if getProp t ''status'' = JStr ''completed''
                                then JNull else JStr (iso e)))
                      else t)
                (tasks st)\<rparr>)"
  by (simp add: ctx_toggleTask_def taskReducer_def)

lemma taskInv_toggled:
  "taskInv (t(''status'' \<mapsto>
               (if getProp t ''status'' = JStr ''completed''
                then JStr ''pending'' else JStr ''completed''),
             ''completedAt'' \<mapsto>
               (if getProp t ''status'' = JStr ''completed'' then JNull else JStr s)))"
  by (simp add: taskInv_def completedAtSet_def)

lemma taskInv_patched:
  "taskInv t \<Longrightarrow> u ''status'' = None \<Longrightarrow> u ''completedAt'' = None \<Longrightarrow> taskInv (t ++ u)"
  by (simp add: taskInv_def completedAtSet_def getProp_add_None)

lemma taskInv_added:
  "\<not> completedAtSet d \<Longrightarrow> taskInv (d(''id'' \<mapsto> v, ''status'' \<mapsto> JStr ''pending''))"
  by (simp add: taskInv_def completedAtSet_def)

lemma reducer_step_inv:
  assumes "storeInv st" "shaped a" "completionSafe a"
  shows "returns (taskReducer e st a) storeInv"
proof (cases "payload a")
  case (PVal v)
  with assms show ?thesis
    by (auto split: if_splits
        simp: taskReducer_def shaped_def storeInv_def list_all_iff taskInv_toggled)
next
  case (PTasks ts)
  with assms show ?thesis
    by (auto split: if_splits
        simp: taskReducer_def shaped_def completionSafe_def storeInv_def list_all_iff)
next
  case (PObj d)
  with assms show ?thesis
    by (auto split: if_splits
        simp: taskReducer_def shaped_def completionSafe_def storeInv_def list_all_iff
          taskInv_added Let_def)
next
  case (PUpdate i u)
  with assms show ?thesis
    by (auto split: if_splits
        simp: taskReducer_def shaped_def completionSafe_def storeInv_def list_all_iff
          taskInv_patched)
next
  case (PFilter k v)
  with assms show ?thesis
    by (auto split: if_splits simp: taskReducer_def shaped_def storeInv_def list_all_iff)
qed

lemma dispatchAll_inv:
  "storeInv st \<Longrightarrow> list_all (\<lambda>(e, a). shaped a \<and> completionSafe a) acts
     \<Longrightarrow> returns (dispatchAll st acts) storeInv"
proof (induction acts arbitrary: st)
  case Nil
  then show ?case by simp
next
  case (Cons ea acts)
  obtain e a where ea: "ea = (e, a)" by (cases ea)
  from Cons.prems ea have "returns (taskReducer e st a) storeInv"
    by (simp add: reducer_step_inv)
  then obtain st' where st': "taskReducer e st a = Inr st'" "storeInv st'"
    by (auto simp: returns_def split: sum.splits)
  with Cons ea show ?case by simp
qed

lemma sample_storeInv: "storeInv (initialState\<lparr>tasks := getSampleTasks\<rparr>)"
  by (simp add: storeInv_def getSampleTasks_def taskInv_def completedAtSet_def)

section \<open>The completion invariant under the reducer\<close>

text \<open>
  C1 (as amended). The empty store and the sample store satisfy the invariant
  "completed exactly if \<open>completedAt\<close> is set", and every sequence of reducer actions
  whose payloads carry no completion data of their own keeps it: TOGGLE does so for every
  id (as do DELETE, CLEAR_COMPLETED, SET_FILTER and SET_SORT), UPDATE does so for every
  patch that has neither a \<open>status\<close> nor a \<open>completedAt\<close> property, ADD for every draft
  without a \<open>completedAt\<close>, and SET_ALL for every list of records that satisfy it.
\<close>

theorem completion_invariant_kept_by_safe_actions:
  "storeInv initialState
   \<and> storeInv (initialState\<lparr>tasks := getSampleTasks\<rparr>)
   \<and> (storeInv st \<longrightarrow> returns (ctx_toggleTask e st i) storeInv)
   \<and> (storeInv st \<longrightarrow> updates ''status'' = None \<longrightarrow> updates ''completedAt'' = None
        \<longrightarrow> returns (ctx_updateTask e st i updates) storeInv)
   \<and> (storeInv st \<longrightarrow> list_all (\<lambda>(e, a). shaped a \<and> completionSafe a) acts
        \<longrightarrow> returns (dispatchAll st acts) storeInv)"
proof -
  have init: "storeInv initialState"
    by (simp add: storeInv_def initialState_def)
  have tog: "returns (ctx_toggleTask e st i) storeInv" if "storeInv st"
    unfolding ctx_toggleTask_def
    by (rule reducer_step_inv [OF that]) (simp_all add: shaped_def completionSafe_def)
  have upd: "returns (ctx_updateTask e st i updates) storeInv"
    if "storeInv st" "updates ''status'' = None" "updates ''completedAt'' = None"
    unfolding ctx_updateTask_def
    by (rule reducer_step_inv [OF that(1)]) (simp_all add: shaped_def completionSafe_def that)
  from init sample_storeInv tog upd dispatchAll_inv show ?thesis by blast
qed

text \<open>
  The theorem at the sample store: toggling record 1, retitling record 2 and adding a
  draft keeps the invariant.
\<close>

theorem completion_invariant_kept_by_safe_actions_witness:
  "returns
     (dispatchAll (initialState\<lparr>tasks := getSampleTasks\<rparr>)
        [(\<lparr>now = 1700000000000, rand = 5, iso = ''2023-11-14T22:13:20.000Z''\<rparr>,
          \<lparr>atype = ''TOGGLE_TASK'', payload = PVal (JNum 1)\<rparr>),
         (\<lparr>now = 1700000000100, rand = 17, iso = ''2023-11-14T22:13:20.100Z''\<rparr>,
          \<lparr>atype = ''UPDATE_TASK'',
           payload = PUpdate (JNum 2) [''title'' \<mapsto> JStr ''Update the API docs'']\<rparr>),
         (\<lparr>now = 1700000000200, rand = 999, iso = ''2023-11-14T22:13:20.200Z''\<rparr>,
          \<lparr>atype = ''ADD_TASK'',
           payload = PObj [''title'' \<mapsto> JStr ''Buy milk'', ''priority'' \<mapsto> JStr ''low'']\<rparr>)])
     storeInv"
proof -
  let ?acts =
    "[(\<lparr>now = 1700000000000, rand = 5, iso = ''2023-11-14T22:13:20.000Z''\<rparr>,
       \<lparr>atype = ''TOGGLE_TASK'', payload = PVal (JNum 1)\<rparr>),
      (\<lparr>now = 1700000000100, rand = 17, iso = ''2023-11-14T22:13:20.100Z''\<rparr>,
       \<lparr>atype = ''UPDATE_TASK'',
        payload = PUpdate (JNum 2) [''title'' \<mapsto> JStr ''Update the API docs'']\<rparr>),
      (\<lparr>now = 1700000000200, rand = 999, iso = ''2023-11-14T22:13:20.200Z''\<rparr>,
       \<lparr>atype = ''ADD_TASK'',
        payload = PObj [''title'' \<mapsto> JStr ''Buy milk'', ''priority'' \<mapsto> JStr ''low'']\<rparr>)]"
  have safe: "list_all (\<lambda>(e, a). shaped a \<and> completionSafe a) ?acts"
    by (simp add: shaped_def completionSafe_def completedAtSet_def)
  show ?thesis
    using completion_invariant_kept_by_safe_actions
            [of "initialState\<lparr>tasks := getSampleTasks\<rparr>" _ _ _ ?acts] safe
    by blast
qed

text \<open>
  The claim as stated fails for UPDATE with an arbitrary patch: on the sample store, which
  satisfies the invariant, the patch \<open>{status: 'completed'}\<close> for record 1 leaves that
  record completed with no \<open>completedAt\<close>.
\<close>

theorem update_status_patch_breaks_invariant:
  "storeInv (initialState\<lparr>tasks := getSampleTasks\<rparr>)
   \<and> returns
       (ctx_updateTask \<lparr>now = 1700000000000, rand = 5, iso = ''2023-11-14T22:13:20.000Z''\<rparr>
          (initialState\<lparr>tasks := getSampleTasks\<rparr>) (JNum 1)
          [''status'' \<mapsto> JStr ''completed''])
       (\<lambda>st. \<not> storeInv st
             \<and> getProp (tasks st ! 0) ''id'' = JNum 1
             \<and> getProp (tasks st ! 0) ''status'' = JStr ''completed''
             \<and> getProp (tasks st ! 0) ''completedAt'' = JUndefined)"
  by (simp add: ctx_updateTask_eq storeInv_def getSampleTasks_def taskInv_def
        completedAtSet_def getProp_def)

section \<open>The reducer on unrecognised actions\<close>

text \<open>
  C10. The reducer is total on unrecognised actions: when the action's type is none of the
  eight recognised kinds, whatever its payload, the reducer raises nothing and returns the
  store it was given (same task sequence, filters and sort criterion).
\<close>

theorem reducer_default_unchanged:
  "atype a \<notin> set ACTION_TYPES \<Longrightarrow> taskReducer e st a = Inr st"
  by (simp add: taskReducer_def ACTION_TYPES_def)

theorem reducer_default_unchanged_witness:
  "atype \<lparr>atype = ''RESET'', payload = PVal (JNum 7)\<rparr> \<notin> set ACTION_TYPES
   \<and> taskReducer \<lparr>now = 1700000000000, rand = 5, iso = ''2023-11-14T22:13:20.000Z''\<rparr>
        initialState \<lparr>atype = ''RESET'', payload = PVal (JNum 7)\<rparr> = Inr initialState"
proof -
  have h: "atype \<lparr>atype = ''RESET'', payload = PVal (JNum 7)\<rparr> \<notin> set ACTION_TYPES"
    by (simp add: ACTION_TYPES_def)
  show ?thesis
    using h reducer_default_unchanged [OF h] by simp
qed

section \<open>Adding records\<close>

lemma adds_grow_by_count:
  "list_all (\<lambda>(e, a). atype a = ''ADD_TASK'' \<and> (\<exists>d. payload a = PObj d)) acts \<Longrightarrow>
   returns (dispatchAll st acts)
     (\<lambda>st'. length (tasks st') = length (tasks st) + length acts)"
proof (induction acts arbitrary: st)
  case Nil
  then show ?case by simp
next
  case (Cons ea acts)
  obtain e a where ea: "ea = (e, a)" by (cases ea)
  with Cons.prems obtain d where a: "atype a = ''ADD_TASK''" "payload a = PObj d"
    by auto
  let ?st' = "st\<lparr>tasks := tasks st @
                [d(''id'' \<mapsto> JNum (now e + rand e), ''status'' \<mapsto> JStr ''pending'')]\<rparr>"
  have step: "taskReducer e st a = Inr ?st'"
    by (simp add: taskReducer_def a)
  from Cons.prems
  have "list_all (\<lambda>(e, a). atype a = ''ADD_TASK'' \<and> (\<exists>d. payload a = PObj d)) acts"
    by simp
  from Cons.IH [OF this, of ?st'] show ?case
    by (simp add: ea step)
qed

text \<open>
  C2. The record count grows by one per ADD (lemma \<open>adds_grow_by_count\<close>), but ids are
  not kept apart. In the reducer the id is the clock reading plus a random offset below
  1000: two ADDs reduced within the same millisecond that draw the same offset get the
  same id. In \<open>createTask\<close> the id is the clock reading alone: two creations within the
  same millisecond always get the same id.
\<close>

theorem adds_in_same_tick_share_id:
  "returns
     (dispatchAll initialState
        [(\<lparr>now = 1700000000000, rand = 5, iso = ''2023-11-14T22:13:20.000Z''\<rparr>,
          \<lparr>atype = ''ADD_TASK'', payload = PObj [''title'' \<mapsto> JStr ''Task 1'']\<rparr>),
         (\<lparr>now = 1700000000000, rand = 5, iso = ''2023-11-14T22:13:20.000Z''\<rparr>,
          \<lparr>atype = ''ADD_TASK'', payload = PObj [''title'' \<mapsto> JStr ''Task 2'']\<rparr>)])
     (\<lambda>st. map (\<lambda>t. (getProp t ''title'', getProp t ''id'')) (tasks st) =
             [(JStr ''Task 1'', JNum 1700000000005), (JStr ''Task 2'', JNum 1700000000005)])
   \<and> map (\<lambda>t. (getProp t ''title'', getProp t ''id''))
       (tasks (app (snd
          (createTask \<lparr>now = 1700000000000, rand = 731, iso = ''2023-11-14T22:13:20.000Z''\<rparr>
             [''title'' \<mapsto> JStr ''Task 2'']
             (snd (createTask
                     \<lparr>now = 1700000000000, rand = 42, iso = ''2023-11-14T22:13:20.000Z''\<rparr>
                     [''title'' \<mapsto> JStr ''Task 1'']
                     \<lparr>app = \<lparr>tasks = [], filters = Map.empty, sortBy = JStr ''date'',
                              currentEditingTaskId = JNull\<rparr>,
                      localStorage = \<lparr>items = Map.empty, refusing = False\<rparr>\<rparr>))))))
     = [(JStr ''Task 1'', JNum 1700000000000), (JStr ''Task 2'', JNum 1700000000000)]"
  by (simp add: taskReducer_def initialState_def createTask_def saveTasks_def setItem_def
        setTasks_def Let_def)





section \<open>Toggling twice\<close>

text \<open>
  C5 (as amended). For a record with id \<open>x\<close>, TOGGLE(x) twice in succession brings a
  pending record back to \<open>pending\<close> with \<open>completedAt\<close> null, passing through \<open>completed\<close>
  with \<open>completedAt\<close> set to the time of the first toggle. A completed record comes back
  to \<open>completed\<close>, passing through \<open>pending\<close> with \<open>completedAt\<close> null, but its
  \<open>completedAt\<close> is then the time of the second toggle, not the value it had before.
  Records with another id are left as they were.
\<close>

theorem toggle_twice_restores_status_and_resets_completedAt:
  "returns (ctx_toggleTask e1 st x) (\<lambda>s1. returns (ctx_toggleTask e2 s1 x) (\<lambda>s2.
      length (tasks s1) = length (tasks st) \<and> length (tasks s2) = length (tasks st) \<and>
      (\<forall>n < length (tasks st).
         if getProp (tasks st ! n) ''id'' \<noteq> x
           then tasks s1 ! n = tasks st ! n \<and> tasks s2 ! n = tasks st ! n
         else if getProp (tasks st ! n) ''status'' = JStr ''completed''
           then getProp (tasks s1 ! n) ''status'' = JStr ''pending''
              \<and> getProp (tasks s1 ! n) ''completedAt'' = JNull
              \<and> getProp (tasks s2 ! n) ''status'' = JStr ''completed''
              \<and> getProp (tasks s2 ! n) ''completedAt'' = JStr (iso e2)
         else getProp (tasks s1 ! n) ''status'' = JStr ''completed''
              \<and> getProp (tasks s1 ! n) ''completedAt'' = JStr (iso e1)
              \<and> getProp (tasks s2 ! n) ''status'' = JStr ''pending''
              \<and> getProp (tasks s2 ! n) ''completedAt'' = JNull)))"
  by (simp add: ctx_toggleTask_eq)

text \<open>The theorem at record 1 of the sample store, a pending record.\<close>

theorem toggle_twice_restores_status_and_resets_completedAt_witness:
  "returns
     (ctx_toggleTask \<lparr>now = 1700000000000, rand = 5, iso = ''2023-11-14T22:13:20.000Z''\<rparr>
        (initialState\<lparr>tasks := getSampleTasks\<rparr>) (JNum 1))
     (\<lambda>s1. returns
        (ctx_toggleTask \<lparr>now = 1700000001000, rand = 9, iso = ''2023-11-14T22:13:21.000Z''\<rparr>
           s1 (JNum 1))
        (\<lambda>s2. getProp (tasks s1 ! 0) ''status'' = JStr ''completed''
              \<and> getProp (tasks s1 ! 0) ''completedAt'' = JStr ''2023-11-14T22:13:20.000Z''
              \<and> getProp (tasks s2 ! 0) ''status'' = JStr ''pending''
              \<and> getProp (tasks s2 ! 0) ''completedAt'' = JNull))"
  using toggle_twice_restores_status_and_resets_completedAt
          [of "\<lparr>now = 1700000000000, rand = 5, iso = ''2023-11-14T22:13:20.000Z''\<rparr>"
              "initialState\<lparr>tasks := getSampleTasks\<rparr>" "JNum 1"
              "\<lparr>now = 1700000001000, rand = 9, iso = ''2023-11-14T22:13:21.000Z''\<rparr>"]
  by (simp add: ctx_toggleTask_eq getSampleTasks_def)

text \<open>
  The claim as stated fails for a completed record: record 4 of the sample store was
  completed on 2024-12-20, and after two toggles its \<open>completedAt\<close> is the time of the
  second toggle.
\<close>

theorem toggle_twice_loses_completion_time:
  "getProp (getSampleTasks ! 3) ''id'' = JNum 4
   \<and> getProp (getSampleTasks ! 3) ''status'' = JStr ''completed''
   \<and> getProp (getSampleTasks ! 3) ''completedAt'' = JStr ''2024-12-20T00:00:00.000Z''
   \<and> returns
        (ctx_toggleTask \<lparr>now = 1700000000000, rand = 5, iso = ''2023-11-14T22:13:20.000Z''\<rparr>
           (initialState\<lparr>tasks := getSampleTasks\<rparr>) (JNum 4))
        (\<lambda>s1. returns
           (ctx_toggleTask
              \<lparr>now = 1700000001000, rand = 9, iso = ''2023-11-14T22:13:21.000Z''\<rparr>
              s1 (JNum 4))
           (\<lambda>s2. getProp (tasks s2 ! 3) ''status'' = JStr ''completed''
                 \<and> getProp (tasks s2 ! 3) ''completedAt'' = JStr ''2023-11-14T22:13:21.000Z''
                 \<and> getProp (tasks s2 ! 3) ''completedAt''
                     \<noteq> getProp (getSampleTasks ! 3) ''completedAt''))"
  by (simp add: ctx_toggleTask_eq getSampleTasks_def)

section \<open>Persistence of the React store\<close>

text \<open>
  C6. The save effect of \<open>TaskProvider\<close> writes only a non-empty task list. When the task
  list is empty the effect raises nothing and leaves the storage as it was, so that the
  list persisted before is what the mount effect loads at the next start, not the empty
  list.
\<close>

theorem save_effect_leaves_slot_when_list_empty:
  "tasks st = [] \<Longrightarrow>
   returns (saveEffect st ls)
     (\<lambda>ls'. ls' = ls
          \<and> (\<forall>persisted. getItem ls ''taskmaster-react-tasks'' = Some persisted
                \<longrightarrow> returns (loadEffect e ls' initialState)
                      (\<lambda>st'. tasks st' = JSON_parse persisted)))"
  by (simp add: saveEffect_def loadEffect_def taskReducer_def)

text \<open>
  The theorem where the slot holds the sample records and the last record has just been
  deleted from a store that held only record 1.
\<close>

theorem save_effect_leaves_slot_when_list_empty_witness:
  "returns
     (ctx_deleteTask \<lparr>now = 1700000000000, rand = 5, iso = ''2023-11-14T22:13:20.000Z''\<rparr>
        (initialState\<lparr>tasks := [hd getSampleTasks]\<rparr>) (JNum 1))
     (\<lambda>st. tasks st = []
          \<and> saveEffect st
               \<lparr>items = [''taskmaster-react-tasks'' \<mapsto> JSON_stringify getSampleTasks],
                refusing = False\<rparr>
             = Inr \<lparr>items = [''taskmaster-react-tasks'' \<mapsto> JSON_stringify getSampleTasks],
                    refusing = False\<rparr>
          \<and> returns
               (loadEffect \<lparr>now = 1700000060000, rand = 8, iso = ''2023-11-14T22:14:20.000Z''\<rparr>
                  \<lparr>items = [''taskmaster-react-tasks'' \<mapsto> JSON_stringify getSampleTasks],
                   refusing = False\<rparr>
                  initialState)
               (\<lambda>st'. tasks st' = JSON_stringify getSampleTasks \<and> length (tasks st') = 4))"
proof -
  let ?ls = "\<lparr>items = [''taskmaster-react-tasks'' \<mapsto> JSON_stringify getSampleTasks],
              refusing = False\<rparr>"
  let ?st = "initialState\<lparr>tasks := []\<rparr>"
  have del: "ctx_deleteTask \<lparr>now = 1700000000000, rand = 5, iso = ''2023-11-14T22:13:20.000Z''\<rparr>
               (initialState\<lparr>tasks := [hd getSampleTasks]\<rparr>) (JNum 1) = Inr ?st"
    by (simp add: ctx_deleteTask_def taskReducer_def getSampleTasks_def)
  have empty: "tasks ?st = []" by simp
  have slot: "getItem ?ls ''taskmaster-react-tasks'' = Some (JSON_stringify getSampleTasks)"
    by (simp add: getItem_def)
  have len: "length (JSON_stringify getSampleTasks) = 4"
    by (simp add: JSON_stringify_def getSampleTasks_def)
  from save_effect_leaves_slot_when_list_empty
         [OF empty, of ?ls
            "\<lparr>now = 1700000060000, rand = 8, iso = ''2023-11-14T22:14:20.000Z''\<rparr>"]
    slot
  have "saveEffect ?st ?ls = Inr ?ls
        \<and> returns
             (loadEffect \<lparr>now = 1700000060000, rand = 8, iso = ''2023-11-14T22:14:20.000Z''\<rparr>
                ?ls initialState)
             (\<lambda>st'. tasks st' = JSON_stringify getSampleTasks)"
    by (auto simp: returns_def JSON_parse_def split: sum.splits)
  with del len show ?thesis
    by (auto simp: returns_def split: sum.splits)
qed

section \<open>A refused save in the vanilla application\<close>

lemma saveTasks_refusing: "refusing (localStorage w) \<Longrightarrow> saveTasks w = Inl StorageError"
  by (simp add: saveTasks_def setItem_def)

lemma setTasks_simps [simp]:
  "tasks (app (setTasks ts w)) = ts"
  "localStorage (setTasks ts w) = localStorage w"
  by (simp_all add: setTasks_def)

lemma findIndex_Some:
  "findIndex P xs = Some n \<Longrightarrow> n < length xs \<and> P (xs ! n) \<and> find P xs = Some (xs ! n)"
proof (induction xs arbitrary: n)
  case Nil
  then show ?case by simp
next
  case (Cons x xs)
  then show ?case
    by (cases "P x") (auto split: option.splits)
qed

lemma createTask_refused:
  assumes "refusing (localStorage w)"
  shows "createTask e d w =
     (Inl StorageError,
      setTasks (tasks (app w) @
        [([''id'' \<mapsto> JNum (now e)] ++ d)
           (''status'' \<mapsto> JStr ''pending'', ''createdAt'' \<mapsto> JStr (iso e))]) w)"
  using assms by (simp add: createTask_def Let_def saveTasks_refusing)

lemma updateTask_refused:
  assumes "refusing (localStorage w)"
    and "findIndex (\<lambda>t. getProp t ''id'' = i) (tasks (app w)) = Some n"
  shows "updateTask i u w =
     (Inl StorageError, setTasks ((tasks (app w))[n := (tasks (app w) ! n) ++ u]) w)"
  using assms by (simp add: updateTask_def Let_def saveTasks_refusing)

lemma deleteTask_refused:
  assumes "refusing (localStorage w)"
    and "\<exists>t\<in>set (tasks (app w)). getProp t ''id'' = i"
  shows "deleteTask i w =
     (Inl StorageError, setTasks (filter (\<lambda>t. getProp t ''id'' \<noteq> i) (tasks (app w))) w)"
proof -
  from assms(2)
  have "length (filter (\<lambda>t. getProp t ''id'' \<noteq> i) (tasks (app w))) < length (tasks (app w))"
    by (auto intro: length_filter_less)
  with assms(1) show ?thesis
    by (simp add: deleteTask_def Let_def saveTasks_refusing)
qed

lemma toggleTaskCompletion_refused:
  assumes "refusing (localStorage w)"
    and "findIndex (\<lambda>t. getProp t ''id'' = i) (tasks (app w)) = Some n"
  shows "toggleTaskCompletion e i w =
     (Inl StorageError,
      setTasks ((tasks (app w))[n := (tasks (app w) ! n) ++
         (if getProp (tasks (app w) ! n) ''status'' = JStr ''completed''
          then [''status'' \<mapsto> JStr ''pending'', ''completedAt'' \<mapsto> JNull]
          else [''status'' \<mapsto> JStr ''completed'', ''completedAt'' \<mapsto> JStr (iso e)])]) w)"
  using assms findIndex_Some [OF assms(2)]
  by (simp add: toggleTaskCompletion_def updateTask_refused)

lemma clearCompletedTasks_refused:
  assumes "refusing (localStorage w)"
  shows "clearCompletedTasks w =
     (Inl StorageError,
      setTasks (filter (\<lambda>t. getProp t ''status'' \<noteq> JStr ''completed'') (tasks (app w))) w)"
  using assms by (simp add: clearCompletedTasks_def Let_def saveTasks_refusing)

text \<open>
  C7 (as amended). When the storage refuses the write, each mutation of the vanilla
  application (create, update, delete and toggle of a record that exists, clear-completed)
  ends with the storage exception escaping from the function, after the in-memory task
  list has been changed: the world after the call holds the mutated list, the other
  fields of \<open>AppState\<close> and the storage are as before. The failed save neither rolls the
  change back nor prevents it; it does end the call with an exception.
\<close>

theorem refused_save_raises_after_mutation:
  assumes "refusing (localStorage w)"
  shows
    "createTask e d w =
       (Inl StorageError,
        setTasks (tasks (app w) @
          [([''id'' \<mapsto> JNum (now e)] ++ d)
             (''status'' \<mapsto> JStr ''pending'', ''createdAt'' \<mapsto> JStr (iso e))]) w)
     \<and> (findIndex (\<lambda>t. getProp t ''id'' = i) (tasks (app w)) = Some n \<longrightarrow>
          updateTask i u w =
            (Inl StorageError, setTasks ((tasks (app w))[n := (tasks (app w) ! n) ++ u]) w))
     \<and> ((\<exists>t\<in>set (tasks (app w)). getProp t ''id'' = i) \<longrightarrow>
          deleteTask i w =
            (Inl StorageError,
             setTasks (filter (\<lambda>t. getProp t ''id'' \<noteq> i) (tasks (app w))) w))
     \<and> (findIndex (\<lambda>t. getProp t ''id'' = i) (tasks (app w)) = Some n \<longrightarrow>
          toggleTaskCompletion e i w =
            (Inl StorageError,
             setTasks ((tasks (app w))[n := (tasks (app w) ! n) ++
               (if getProp (tasks (app w) ! n) ''status'' = JStr ''completed''
                then [''status'' \<mapsto> JStr ''pending'', ''completedAt'' \<mapsto> JNull]
                else [''status'' \<mapsto> JStr ''completed'',
                      ''completedAt'' \<mapsto> JStr (iso e)])]) w))
     \<and> clearCompletedTasks w =
         (Inl StorageError,
          setTasks (filter (\<lambda>t. getProp t ''status'' \<noteq> JStr ''completed'')
                      (tasks (app w))) w)"
  using assms
  by (simp add: createTask_refused updateTask_refused deleteTask_refused
        toggleTaskCompletion_refused clearCompletedTasks_refused)

text \<open>
  The theorem on the sample records with a storage that refuses writes: every one of the
  five mutations ends with the exception, and the task list has 5, 4, 3, 4 and 3 records
  afterwards (one added, one patched, one deleted, one toggled, one completed record
  cleared).
\<close>

theorem refused_save_raises_after_mutation_witness:
  "(let w = \<lparr>app = \<lparr>tasks = getSampleTasks, filters = Map.empty, sortBy = JStr ''date'',
                     currentEditingTaskId = JNull\<rparr>,
             localStorage = \<lparr>items = Map.empty, refusing = True\<rparr>\<rparr>;
        e = \<lparr>now = 1700000000000, rand = 5, iso = ''2023-11-14T22:13:20.000Z''\<rparr>
    in (case createTask e [''title'' \<mapsto> JStr ''Buy milk''] w of
          (r, w') \<Rightarrow> r = Inl StorageError \<and> length (tasks (app w')) = 5)
     \<and> (case updateTask (JNum 2) [''title'' \<mapsto> JStr ''Docs''] w of
          (r, w') \<Rightarrow> r = Inl StorageError \<and> length (tasks (app w')) = 4)
     \<and> (case deleteTask (JNum 2) w of
          (r, w') \<Rightarrow> r = Inl StorageError \<and> length (tasks (app w')) = 3)
     \<and> (case toggleTaskCompletion e (JNum 2) w of
          (r, w') \<Rightarrow> r = Inl StorageError \<and> length (tasks (app w')) = 4)
     \<and> (case clearCompletedTasks w of
          (r, w') \<Rightarrow> r = Inl StorageError \<and> length (tasks (app w')) = 3))"
proof -
  let ?w = "\<lparr>app = \<lparr>tasks = getSampleTasks, filters = Map.empty, sortBy = JStr ''date'',
                    currentEditingTaskId = JNull\<rparr>,
            localStorage = \<lparr>items = Map.empty, refusing = True\<rparr>\<rparr>"
  let ?e = "\<lparr>now = 1700000000000, rand = 5, iso = ''2023-11-14T22:13:20.000Z''\<rparr>"
  have r: "refusing (localStorage ?w)" by simp
  have ix: "findIndex (\<lambda>t. getProp t ''id'' = JNum 2) (tasks (app ?w)) = Some 1"
    by (simp add: getSampleTasks_def)
  have ex: "\<exists>t\<in>set (tasks (app ?w)). getProp t ''id'' = JNum 2"
    by (simp add: getSampleTasks_def)
  have len: "length getSampleTasks = 4"
    by (simp add: getSampleTasks_def)
  have del: "length (filter (\<lambda>t. getProp t ''id'' \<noteq> JNum 2) getSampleTasks) = 3"
    by (simp add: getSampleTasks_def)
  have clr: "length (filter (\<lambda>t. getProp t ''status'' \<noteq> JStr ''completed'') getSampleTasks) = 3"
    by (simp add: getSampleTasks_def)
  from refused_save_raises_after_mutation
         [OF r, of ?e "[''title'' \<mapsto> JStr ''Buy milk'']" "JNum 2" 1
            "[''title'' \<mapsto> JStr ''Docs'']"]
       ix ex
  show ?thesis
    by (simp add: Let_def len del clr)
qed

text \<open>
  The claim as stated fails: with a storage that refuses writes, \<open>createTask\<close> on an empty
  task list ends with the storage exception (the record is in the list all the same).
\<close>

theorem refused_save_crashes_createTask:
  "(case createTask \<lparr>now = 1700000000000, rand = 5, iso = ''2023-11-14T22:13:20.000Z''\<rparr>
          [''title'' \<mapsto> JStr ''Buy milk'', ''priority'' \<mapsto> JStr ''low'']
          \<lparr>app = \<lparr>tasks = [], filters = Map.empty, sortBy = JStr ''date'',
                   currentEditingTaskId = JNull\<rparr>,
           localStorage = \<lparr>items = Map.empty, refusing = True\<rparr>\<rparr>
    of (r, w') \<Rightarrow>
      r = Inl StorageError
      \<and> map (\<lambda>t. getProp t ''title'') (tasks (app w')) = [JStr ''Buy milk''])"
  by (simp add: createTask_def saveTasks_def setItem_def setTasks_def Let_def)


section \<open>The sort returns a permutation\<close>












lemma getFilteredTasks_empty:
  assumes "tasks st = []"
    and "truthy (getProp (filters st) ''searchTerm'')
         \<longrightarrow> (\<exists>s. getProp (filters st) ''searchTerm'' = JStr s)"
  shows "getFilteredTasks rt st = Inr []"
  using assms
  by (auto simp: getFilteredTasks_def sortTasks_def arraySort_def split: jsval.splits)

section \<open>Filtering by status\<close>




section \<open>Statistics\<close>

lemma foldl_countTask:
  "foldl countTask acc ts =
     acc\<lparr>total := total acc + int (length ts),
         inProgress := inProgress acc
            + int (length (filter (\<lambda>t. getProp t ''status'' \<noteq> JStr ''completed'') ts)),
         completed := completed acc
            + int (length (filter (\<lambda>t. getProp t ''status'' = JStr ''completed'') ts))\<rparr>"
  by (induction ts arbitrary: acc) (simp_all add: countTask_def Let_def)

lemma getStats_counts:
  "total (getStats st) = int (length (tasks st))"
  "completed (getStats st)
     = int (length (filter (\<lambda>t. getProp t ''status'' = JStr ''completed'') (tasks st)))"
  "inProgress (getStats st) = total (getStats st) - completed (getStats st)"
proof -
  show "total (getStats st) = int (length (tasks st))"
    by (simp add: getStats_def foldl_countTask Let_def)
  show "completed (getStats st)
     = int (length (filter (\<lambda>t. getProp t ''status'' = JStr ''completed'') (tasks st)))"
    by (simp add: getStats_def foldl_countTask Let_def)
  have "length (filter (\<lambda>t. getProp t ''status'' = JStr ''completed'') (tasks st))
        + length (filter (\<lambda>t. getProp t ''status'' \<noteq> JStr ''completed'') (tasks st))
        = length (tasks st)"
    by (rule sum_length_filter_compl)
  then show "inProgress (getStats st) = total (getStats st) - completed (getStats st)"
    by (simp add: getStats_def foldl_countTask Let_def)
qed

lemma getStats_empty:
  "tasks st = [] \<Longrightarrow>
   getStats st = \<lparr>total = 0, inProgress = 0, completed = 0, completionRate = 0\<rparr>"
  by (simp add: getStats_def)

lemma rate_23_of_40: "Math_round (times100 (divide 23 40)) = 57"
  by (simp add: Math_round_def times100_def divide_def nearestDouble_def floorLog2_def
        Let_def compute_bitlen)


text \<open>
  C8. The counters are right for every task sequence (\<open>getStats_counts\<close>: total is the
  length, \<open>inProgress = total - completed\<close>), and the empty sequence gives all zeros
  (\<open>getStats_empty\<close>) and an empty view (\<open>getFilteredTasks_empty\<close>). The completion rate is
  not always \<open>round(100 * completed / total)\<close>: with 23 of 40 tasks completed the exact
  percentage is 57.5, which rounds to 58, but the double nearest to 23/40 lies below
  0.575, its product with 100 is the double 57.49999999999999, and \<open>Math.round\<close> makes
  that 57.
\<close>

theorem completion_rate_of_23_in_40:
  "getStats (initialState\<lparr>tasks :=
       map (\<lambda>n. [''id'' \<mapsto> JNum (int n), ''status'' \<mapsto> JStr ''completed'']) [1..<24]
       @ map (\<lambda>n. [''id'' \<mapsto> JNum (int n), ''status'' \<mapsto> JStr ''pending'']) [24..<41]\<rparr>)
     = \<lparr>total = 40, inProgress = 17, completed = 23, completionRate = 57\<rparr>
   \<and> times100 (divide 23 40) = Dbl 8092405580431359 (- 47)
   \<and> specCompletionRate 23 40 = 58"
proof -
  let ?ts = "map (\<lambda>n. [''id'' \<mapsto> JNum (int n), ''status'' \<mapsto> JStr ''completed'']) [1..<24]
       @ map (\<lambda>n. [''id'' \<mapsto> JNum (int n), ''status'' \<mapsto> JStr ''pending'']) [24..<41]"
  have n: "length ?ts = 40"
    by (simp del: upt_rec_numeral)
  have c: "length (filter (\<lambda>t. getProp t ''status'' = JStr ''completed'') ?ts) = 23"
    by (simp add: filter_map o_def del: upt_rec_numeral)
  have p: "length (filter (\<lambda>t. getProp t ''status'' \<noteq> JStr ''completed'') ?ts) = 17"
    by (simp add: filter_map o_def del: upt_rec_numeral)
  have "getStats (initialState\<lparr>tasks := ?ts\<rparr>)
          = \<lparr>total = 40, inProgress = 17, completed = 23, completionRate = 57\<rparr>"
    unfolding getStats_def foldl_countTask Let_def
    by (simp add: n c p rate_23_of_40 del: upt_rec_numeral)
  moreover have "times100 (divide 23 40) = Dbl 8092405580431359 (- 47)"
    by (simp add: times100_def divide_def nearestDouble_def floorLog2_def Let_def
          compute_bitlen)
  moreover have "specCompletionRate 23 40 = 58"
    by (simp add: specCompletionRate_def)
  ultimately show ?thesis by simp
qed


section \<open>Sorting by due date\<close>

text \<open>
  On an engine that calls \<open>comparator(later, earlier)\<close> the sort by date does give the
  order the specification describes, for every task sequence whose due dates are valid
  dates: the records with a due date first, ascending, then the records without one in
  their original order.
\<close>

lemma precedes_byDate_LaterFirst:
  assumes "validDate rt x" "validDate rt y"
  shows "precedes LaterFirst (byDate rt) x y = Inr (dueBefore rt x y)"
  using assms
  by (auto simp: precedes_def byDate_def validDate_def dated_def dueBefore_def dueTime_def
      split: option.splits)

lemma placeBack_split:
  assumes "\<forall>y\<in>set acc. precedes ord c x y = Inr (bf y)"
  shows "placeBack ord c x acc = Inr (takeWhile bf acc @ x # dropWhile bf acc)"
  using assms by (induction acc) auto

lemma dueBefore_asym: "dueBefore rt x y \<Longrightarrow> \<not> dueBefore rt y x"
  by (auto simp: dueBefore_def)

lemma not_dueBefore_trans:
  "\<not> dueBefore rt x y \<Longrightarrow> \<not> dueBefore rt y z \<Longrightarrow> \<not> dueBefore rt x z"
  by (auto simp: dueBefore_def)

lemma placed_sorted:
  assumes "sorted_wrt (\<lambda>a b. \<not> dueBefore rt a b) acc"
  shows "sorted_wrt (\<lambda>a b. \<not> dueBefore rt a b)
           (takeWhile (dueBefore rt x) acc @ x # dropWhile (dueBefore rt x) acc)"
proof -
  let ?G = "\<lambda>a b. \<not> dueBefore rt a b"
  let ?T = "takeWhile (dueBefore rt x) acc"
  let ?D = "dropWhile (dueBefore rt x) acc"
  have "sorted_wrt ?G (?T @ ?D)"
    using assms by simp
  then have parts: "sorted_wrt ?G ?T" "sorted_wrt ?G ?D" "\<forall>a\<in>set ?T. \<forall>b\<in>set ?D. ?G a b"
    unfolding sorted_wrt_append by blast+
  have T: "\<forall>a\<in>set ?T. ?G a x"
    by (auto dest: set_takeWhileD dueBefore_asym)
  have D: "\<forall>b\<in>set ?D. ?G x b"
  proof (cases ?D)
    case Nil
    then show ?thesis by (metis empty_iff empty_set)
  next
    case (Cons h rest)
    then have h: "?G x h"
      by (metis hd_dropWhile list.distinct(1) list.sel(1))
    from parts(2) Cons have "\<forall>b\<in>set rest. ?G h b"
      by simp
    with h have "\<forall>b\<in>set (h # rest). ?G x b"
      by (metis not_dueBefore_trans set_ConsD)
    with Cons show ?thesis by simp
  qed
  from parts T D show ?thesis
    by (simp add: sorted_wrt_append)
qed

lemma sortFrom_byDate:
  assumes "\<forall>t\<in>set acc \<union> set rest. validDate rt t"
    and "sorted_wrt (\<lambda>a b. \<not> dueBefore rt a b) acc"
  shows "\<exists>r. sortFrom LaterFirst (byDate rt) acc rest = Inr r
           \<and> mset r = mset acc + mset rest
           \<and> sorted_wrt (\<lambda>a b. \<not> dueBefore rt b a) r
           \<and> filter (\<lambda>t. \<not> dated t) r
               = filter (\<lambda>t. \<not> dated t) (rev acc) @ filter (\<lambda>t. \<not> dated t) rest"
  using assms
proof (induction rest arbitrary: acc)
  case Nil
  then show ?case
    by (simp add: sorted_wrt_rev)
next
  case (Cons x rest)
  let ?acc' = "takeWhile (dueBefore rt x) acc @ x # dropWhile (dueBefore rt x) acc"
  have pb: "placeBack LaterFirst (byDate rt) x acc = Inr ?acc'"
    by (rule placeBack_split) (use Cons.prems(1) in \<open>simp add: precedes_byDate_LaterFirst\<close>)
  have set': "set ?acc' = insert x (set acc)"
    by (metis Un_insert_right list.simps(15) set_append takeWhile_dropWhile_id)
  have valid': "\<forall>t\<in>set ?acc' \<union> set rest. validDate rt t"
    using Cons.prems(1) unfolding set' by auto
  have sorted': "sorted_wrt (\<lambda>a b. \<not> dueBefore rt a b) ?acc'"
    by (rule placed_sorted [OF Cons.prems(2)])
  from Cons.IH [OF valid' sorted']
  obtain r where r: "sortFrom LaterFirst (byDate rt) ?acc' rest = Inr r"
    "mset r = mset ?acc' + mset rest"
    "sorted_wrt (\<lambda>a b. \<not> dueBefore rt b a) r"
    "filter (\<lambda>t. \<not> dated t) r
       = filter (\<lambda>t. \<not> dated t) (rev ?acc') @ filter (\<lambda>t. \<not> dated t) rest"
    by blast
  have m: "mset ?acc' = add_mset x (mset acc)"
    by (metis mset.simps(2) mset_append takeWhile_dropWhile_id union_mset_add_mset_right)
  have u: "filter (\<lambda>t. \<not> dated t) (rev ?acc')
           = filter (\<lambda>t. \<not> dated t) (rev acc) @ filter (\<lambda>t. \<not> dated t) [x]"
  proof (cases "dated x")
    case True
    have "rev acc = rev (dropWhile (dueBefore rt x) acc) @ rev (takeWhile (dueBefore rt x) acc)"
      by (metis rev_append takeWhile_dropWhile_id)
    then have "filter (\<lambda>t. \<not> dated t) (rev acc)
         = filter (\<lambda>t. \<not> dated t) (rev (dropWhile (dueBefore rt x) acc))
           @ filter (\<lambda>t. \<not> dated t) (rev (takeWhile (dueBefore rt x) acc))"
      by (metis filter_append)
    with True show ?thesis by simp
  next
    case False
    then have "takeWhile (dueBefore rt x) acc = []"
      by (cases acc) (auto simp: dueBefore_def)
    moreover from this have "dropWhile (dueBefore rt x) acc = acc"
      by (metis append_Nil takeWhile_dropWhile_id)
    ultimately show ?thesis by simp
  qed
  have step: "sortFrom LaterFirst (byDate rt) acc (x # rest) = Inr r"
    using r(1) by (simp add: pb)
  have ms: "mset r = mset acc + mset (x # rest)"
    using r(2) m by simp
  have "filter (\<lambda>t. \<not> dated t) r
        = (filter (\<lambda>t. \<not> dated t) (rev acc) @ filter (\<lambda>t. \<not> dated t) [x])
          @ filter (\<lambda>t. \<not> dated t) rest"
    using r(4) u by (simp only:)
  then have fl: "filter (\<lambda>t. \<not> dated t) r
        = filter (\<lambda>t. \<not> dated t) (rev acc) @ filter (\<lambda>t. \<not> dated t) (x # rest)"
    by simp
  from step ms r(3) fl show ?case by blast
qed

lemma dated_first:
  assumes "sorted_wrt (\<lambda>a b. \<not> dueBefore rt b a) r"
  shows "r = filter dated r @ filter (\<lambda>t. \<not> dated t) r
         \<and> sorted (map (dueTime rt) (filter dated r))"
  using assms
proof (induction r)
  case Nil
  then show ?case by simp
next
  case (Cons a r)
  then have IH: "r = filter dated r @ filter (\<lambda>t. \<not> dated t) r"
    "sorted (map (dueTime rt) (filter dated r))"
    and a: "\<forall>b\<in>set r. \<not> dueBefore rt b a"
    by simp_all
  show ?case
  proof (cases "dated a")
    case True
    with a have "\<forall>b\<in>set r. dated b \<longrightarrow> dueTime rt a \<le> dueTime rt b"
      by (auto simp: dueBefore_def)
    with True IH show ?thesis by auto
  next
    case False
    with a have "\<forall>b\<in>set r. \<not> dated b"
      by (auto simp: dueBefore_def)
    then have "filter dated r = []" "filter (\<lambda>t. \<not> dated t) r = r"
      by (simp_all add: filter_empty_conv filter_id_conv)
    with False show ?thesis by simp
  qed
qed

lemma sort_by_date_later_first:
  assumes "callOrder rt = LaterFirst"
    and "\<forall>t\<in>set ts. validDate rt t"
    and "criterion \<noteq> JStr ''priority''" "criterion \<noteq> JStr ''title''"
  shows "\<exists>r. sortTasks rt ts criterion = Inr r
           \<and> mset r = mset ts
           \<and> r = filter dated r @ filter (\<lambda>t. \<not> dated t) r
           \<and> sorted (map (dueTime rt) (filter dated r))
           \<and> filter (\<lambda>t. \<not> dated t) r = filter (\<lambda>t. \<not> dated t) ts"
proof -
  from sortFrom_byDate [of "[]" ts rt] assms(2)
  obtain r where r: "sortFrom LaterFirst (byDate rt) [] ts = Inr r" "mset r = mset ts"
    "sorted_wrt (\<lambda>a b. \<not> dueBefore rt b a) r"
    "filter (\<lambda>t. \<not> dated t) r = filter (\<lambda>t. \<not> dated t) ts"
    by auto
  from dated_first [OF r(3)] r assms(1,3,4) show ?thesis
    by (simp add: sortTasks_def arraySort_def)
qed


text \<open>
  C4. The date comparator answers 1 when its first argument has no due date, whatever
  the second is. For two records without a due date it therefore answers 1 in both
  orders: each is to come after the other. The comparator is not consistent, and what
  the sort makes of the pair depends on how the engine calls it. An engine that asks
  \<open>comparator(earlier, later)\<close> is told to swap the two, so the records without a due date
  come out in the reverse of their original order; an engine that asks
  \<open>comparator(later, earlier)\<close> leaves them.
\<close>

theorem undated_records_order_depends_on_engine:
  "byDate rt [''id'' \<mapsto> JNum 1, ''dueDate'' \<mapsto> JNull]
             [''id'' \<mapsto> JNum 2, ''dueDate'' \<mapsto> JNull] = Inr (Some 1)
   \<and> byDate rt [''id'' \<mapsto> JNum 2, ''dueDate'' \<mapsto> JNull]
               [''id'' \<mapsto> JNum 1, ''dueDate'' \<mapsto> JNull] = Inr (Some 1)
   \<and> returns
       (sortTasks \<lparr>callOrder = EarlierFirst, timeValue = tv, localeCompare = lc\<rparr>
          [[''id'' \<mapsto> JNum 1, ''dueDate'' \<mapsto> JNull],
           [''id'' \<mapsto> JNum 2, ''dueDate'' \<mapsto> JNull]] (JStr ''date''))
       (\<lambda>r. map (\<lambda>t. getProp t ''id'') r = [JNum 2, JNum 1])
   \<and> returns
       (sortTasks \<lparr>callOrder = LaterFirst, timeValue = tv, localeCompare = lc\<rparr>
          [[''id'' \<mapsto> JNum 1, ''dueDate'' \<mapsto> JNull],
           [''id'' \<mapsto> JNum 2, ''dueDate'' \<mapsto> JNull]] (JStr ''date''))
       (\<lambda>r. map (\<lambda>t. getProp t ''id'') r = [JNum 1, JNum 2])"
  by (simp add: sortTasks_def arraySort_def precedes_def byDate_def)


end
